theory Spec2Isabelle
  imports Main "HOL-Library.Sublist"
begin

section \<open>The configuration loader \<open>readConfig\<close> and its environment\<close>

text \<open>
  The repository's one multi-step program opens \<^verbatim>\<open>config.json\<close>, returns an error with
  added context when the open fails, and otherwise defers the close of the file and
  returns nil. The program is seven lines; everything else it touches is the Go
  standard library (\<^verbatim>\<open>os.Open\<close>, \<^verbatim>\<open>(*os.File).Close\<close>, \<^verbatim>\<open>fmt.Errorf\<close>, \<^verbatim>\<open>errors.Is\<close>),
  which is modelled here as far as the program uses it.
\<close>

subsection \<open>Go error values\<close>

text \<open>
  The error numbers of the platform (\<^verbatim>\<open>syscall.Errno\<close>), restricted to those an open or
  a close can report, with the texts of the Linux table.
\<close>

datatype errno = ENOENT | EACCES | EPERM | EEXIST | ENOTEMPTY | EISDIR | ENOTDIR | EMFILE | EINVAL

fun errno_text :: "errno \<Rightarrow> string" where
  "errno_text ENOENT = ''no such file or directory''"
| "errno_text EACCES = ''permission denied''"
| "errno_text EPERM = ''operation not permitted''"
| "errno_text EEXIST = ''file exists''"
| "errno_text ENOTEMPTY = ''directory not empty''"
| "errno_text EISDIR = ''is a directory''"
| "errno_text ENOTDIR = ''not a directory''"
| "errno_text EMFILE = ''too many open files''"
| "errno_text EINVAL = ''invalid argument''"

text \<open>
  An error is an interface value. Three of the dynamic types that occur are pointers
  (\<^verbatim>\<open>*errors.errorString\<close>, \<^verbatim>\<open>*fmt.wrapError\<close>, \<^verbatim>\<open>*fs.PathError\<close>): they carry the address
  of their allocation, because Go's \<^verbatim>\<open>==\<close> on them compares addresses. \<^verbatim>\<open>syscall.Errno\<close>
  is a number and is compared by value.
\<close>

type_synonym addr = nat

datatype goerror =
    ErrorString addr string
  | WrapError addr string goerror
  | PathError addr string string goerror
  | Errno errno

text \<open>The method \<^verbatim>\<open>Error() string\<close> of each dynamic type.\<close>

fun Error :: "goerror \<Rightarrow> string" where
  "Error (ErrorString a s) = s"
| "Error (WrapError a msg err) = msg"
| "Error (PathError a op path err) = op @ '' '' @ path @ '': '' @ Error err"
| "Error (Errno e) = errno_text e"

text \<open>The method \<^verbatim>\<open>Unwrap() error\<close>, for the types that have one.\<close>

fun Unwrap :: "goerror \<Rightarrow> goerror option" where
  "Unwrap (WrapError a msg err) = Some err"
| "Unwrap (PathError a op path err) = Some err"
| "Unwrap (ErrorString a s) = None"
| "Unwrap (Errno e) = None"

text \<open>The name \<^verbatim>\<open>reflect.TypeOf(err).String()\<close> of the dynamic type.\<close>

fun type_name :: "goerror \<Rightarrow> string" where
  "type_name (ErrorString a s) = ''*errors.errorString''"
| "type_name (WrapError a msg err) = ''*fmt.wrapError''"
| "type_name (PathError a op path err) = ''*fs.PathError''"
| "type_name (Errno e) = ''syscall.Errno''"

text \<open>Go's \<^verbatim>\<open>==\<close> on two non-nil error values: same dynamic type, and same address or number.\<close>

fun go_eq :: "goerror \<Rightarrow> goerror \<Rightarrow> bool" where
  "go_eq (ErrorString a s) (ErrorString b t) = (a = b)"
| "go_eq (WrapError a m e) (WrapError b n f) = (a = b)"
| "go_eq (PathError a op p e) (PathError b oq q f) = (a = b)"
| "go_eq (Errno x) (Errno y) = (x = y)"
| "go_eq err target = False"

text \<open>
  The sentinel errors of package \<^verbatim>\<open>oserror\<close> (re-exported as \<^verbatim>\<open>fs.ErrNotExist\<close>,
  \<^verbatim>\<open>os.ErrNotExist\<close> and so on). Each is one \<^verbatim>\<open>errors.New\<close> value made at program
  start, so they occupy the first five addresses.
\<close>

definition ErrInvalid :: goerror where
  "ErrInvalid = ErrorString 0 ''invalid argument''"

definition ErrPermission :: goerror where
  "ErrPermission = ErrorString 1 ''permission denied''"

definition ErrExist :: goerror where
  "ErrExist = ErrorString 2 ''file already exists''"

definition ErrNotExist :: goerror where
  "ErrNotExist = ErrorString 3 ''file does not exist''"

definition ErrClosed :: goerror where
  "ErrClosed = ErrorString 4 ''file already closed''"

text \<open>
  \<^verbatim>\<open>func (e Errno) Is(target error) bool\<close>: the only \<^verbatim>\<open>Is\<close> method among the four types.
  (Its fourth case, \<^verbatim>\<open>errors.ErrUnsupported\<close>, answers false for every number kept in
  \<^typ>\<open>errno\<close>, as the default does.)
\<close>

definition Errno_Is :: "errno \<Rightarrow> goerror \<Rightarrow> bool" where
  "Errno_Is e target =
     (if go_eq target ErrPermission then e = EACCES \<or> e = EPERM
      else if go_eq target ErrExist then e = EEXIST \<or> e = ENOTEMPTY
      else if go_eq target ErrNotExist then e = ENOENT
      else False)"

text \<open>
  \<^verbatim>\<open>errors.Is(err, target)\<close> for non-nil operands: walk the chain of \<^verbatim>\<open>Unwrap\<close>, and at each
  link compare with \<^verbatim>\<open>==\<close> and ask the link's \<^verbatim>\<open>Is\<close> method, if it has one.
\<close>

fun errors_Is :: "goerror \<Rightarrow> goerror \<Rightarrow> bool" where
  "errors_Is (ErrorString a s) target = go_eq (ErrorString a s) target"
| "errors_Is (WrapError a msg err) target =
     (go_eq (WrapError a msg err) target \<or> errors_Is err target)"
| "errors_Is (PathError a op path err) target =
     (go_eq (PathError a op path err) target \<or> errors_Is err target)"
| "errors_Is (Errno e) target = (go_eq (Errno e) target \<or> Errno_Is e target)"

subsection \<open>The world: file system, open files, allocator, and what was called\<close>

text \<open>
  A call of the library that reaches outside the program is recorded, in order:
  every \<^verbatim>\<open>os.Open\<close>, every \<^verbatim>\<open>Close\<close> of a file, every line written to standard output.
\<close>

datatype event = CallOpen string | CallClose nat | Stdout string

fun is_open :: "event \<Rightarrow> bool" where
  "is_open (CallOpen name) = True"
| "is_open ev = False"

fun is_close :: "event \<Rightarrow> bool" where
  "is_close (CallClose fd) = True"
| "is_close ev = False"

fun is_print :: "event \<Rightarrow> bool" where
  "is_print (Stdout s) = True"
| "is_print ev = False"

text \<open>
  The state of the process and of the platform (Linux) under it.
  \<^item> \<open>disk\<close> is the file system as a read-only open sees it: for a name, the contents of
    the file when it exists and the process may read it, and otherwise the error number
    that says why not (\<open>ENOENT\<close> for a name that does not exist).
  \<^item> \<open>refusal\<close> is a reason of the platform's to refuse any open now, whatever the name:
    \<open>EMFILE\<close> when the descriptor table of the process is full. A descriptor is refused
    or granted as a whole: when there is no refusal, the two descriptors that the
    runtime takes for itself at the first successful open are granted too.
  \<^item> \<open>open_files\<close> are the descriptors now open, in the order they were opened.
  \<^item> \<open>poller_started\<close> says whether the runtime's network poller is running.
  \<^item> \<open>next_addr\<close> is the address of the next allocation.
  \<^item> \<open>trace\<close> is the record of the calls so far.
\<close>

record world =
  disk :: "string \<Rightarrow> errno + string"
  refusal :: "errno option"
  open_files :: "nat list"
  poller_started :: bool
  next_addr :: addr
  trace :: "event list"

text \<open>
  What the platform answers to a read-only open of a name: an error number, or the
  contents of the file. The descriptor is allocated before the name is looked up, so a
  refusal comes first.
\<close>

definition files :: "world \<Rightarrow> string \<Rightarrow> errno + string" where
  "files w name = (case refusal w of Some e \<Rightarrow> Inl e | None \<Rightarrow> disk w name)"

text \<open>
  A new descriptor is the lowest number that is not open: \<open>first_free k n fds\<close> looks at
  \<open>n\<close>, \<open>n + 1\<close>, ... and stops at the first that is not in \<open>fds\<close>; of the numbers
  \<open>0, ..., length fds\<close> at least one is not.
\<close>

fun first_free :: "nat \<Rightarrow> nat \<Rightarrow> nat list \<Rightarrow> nat" where
  "first_free 0 n fds = n"
| "first_free (Suc k) n fds = (if n \<in> set fds then first_free k (Suc n) fds else n)"

definition lowest_free :: "nat list \<Rightarrow> nat" where
  "lowest_free fds = first_free (length fds) 0 fds"

text \<open>The descriptor the next successful open gets.\<close>

definition next_fd :: "world \<Rightarrow> nat" where
  "next_fd w = lowest_free (open_files w)"

text \<open>
  \<^verbatim>\<open>runtime_pollServerInit\<close>, run once per process (under a \<^verbatim>\<open>sync.Once\<close>) when the first
  file is set up: it creates an epoll descriptor and then an eventfd, and keeps both
  open for the rest of the process.
\<close>

definition poll_serverInit :: "world \<Rightarrow> world" where
  "poll_serverInit w =
     (if poller_started w then w
      else (let epfd = lowest_free (open_files w);
                efd = lowest_free (open_files w @ [epfd])
            in w\<lparr>open_files := open_files w @ [epfd, efd], poller_started := True\<rparr>))"

definition open_count :: "world \<Rightarrow> nat" where
  "open_count w = length (filter is_open (trace w))"

definition release_count :: "world \<Rightarrow> nat" where
  "release_count w = length (filter is_close (trace w))"

text \<open>A \<^verbatim>\<open>*os.File\<close>: its descriptor and the name it was opened under.\<close>

datatype os_File = File nat string

text \<open>
  \<^verbatim>\<open>os.Open(name)\<close>: one attempt. A failure of the platform comes back as
  \<^verbatim>\<open>&PathError{Op: "open", Path: name, Err: errno}\<close>; a success as a file on a new
  descriptor. Setting up the file (\<^verbatim>\<open>newFile\<close>) hands it to the poller, which starts the
  poller if this is the first file of the process.
\<close>

definition os_Open :: "string \<Rightarrow> world \<Rightarrow> (goerror + os_File) \<times> world" where
  "os_Open name w =
     (let w1 = w\<lparr>trace := trace w @ [CallOpen name]\<rparr> in
      case files w name of
        Inl e \<Rightarrow>
          (Inl (PathError (next_addr w) ''open'' name (Errno e)),
           w1\<lparr>next_addr := Suc (next_addr w)\<rparr>)
      | Inr contents \<Rightarrow>
          (Inr (File (next_fd w) name),
           poll_serverInit (w1\<lparr>open_files := open_files w @ [next_fd w]\<rparr>)))"

text \<open>
  \<^verbatim>\<open>(*os.File).Close()\<close>: releases the descriptor; on a file already closed it returns
  \<^verbatim>\<open>&PathError{Op: "close", Path: name, Err: ErrClosed}\<close>.
\<close>

definition file_Close :: "os_File \<Rightarrow> world \<Rightarrow> goerror option \<times> world" where
  "file_Close f w =
     (case f of File fd name \<Rightarrow>
        (let w1 = w\<lparr>trace := trace w @ [CallClose fd]\<rparr> in
         if fd \<in> set (open_files w)
         then (None, w1\<lparr>open_files := remove1 fd (open_files w)\<rparr>)
         else (Some (PathError (next_addr w) ''close'' name ErrClosed),
               w1\<lparr>next_addr := Suc (next_addr w)\<rparr>)))"

subsection \<open>\<^verbatim>\<open>fmt.Errorf\<close> with one error operand\<close>

text \<open>
  The formatting loop, for a format and at most one operand that is an error. The
  result is the text and whether a \<^verbatim>\<open>%w\<close> consumed the operand. Modelled: plain text,
  \<^verbatim>\<open>%%\<close>, and the verbs \<^verbatim>\<open>s\<close>, \<^verbatim>\<open>v\<close> and \<^verbatim>\<open>w\<close>, each printing \<^verbatim>\<open>Error()\<close> of the operand, or
  \<^verbatim>\<open>%!s(MISSING)\<close> once the operand is used up; a lone \<^verbatim>\<open>%\<close> at the end; an operand no
  verb consumed. Flags, widths and other verbs are outside the model (the formats of the
  repository have none): such a directive is copied unchanged.
\<close>

fun doPrintf :: "string \<Rightarrow> goerror option \<Rightarrow> string \<times> bool" where
  "doPrintf [] None = ([], False)"
| "doPrintf [] (Some a) = (''%!(EXTRA '' @ type_name a @ ''='' @ Error a @ '')'', False)"
| "doPrintf [c] arg =
     (case doPrintf [] arg of (out, wrapped) \<Rightarrow>
        if c = CHR ''%'' then (''%!(NOVERB)'' @ out, wrapped) else (c # out, wrapped))"
| "doPrintf (c # v # fmt) arg =
     (if c \<noteq> CHR ''%''
      then (case doPrintf (v # fmt) arg of (out, wrapped) \<Rightarrow> (c # out, wrapped))
      else if v = CHR ''%''
      then (case doPrintf fmt arg of (out, wrapped) \<Rightarrow> (CHR ''%'' # out, wrapped))
      else if v = CHR ''s'' \<or> v = CHR ''v'' \<or> v = CHR ''w''
      then (case doPrintf fmt None of (out, wrapped) \<Rightarrow>
              (case arg of
                 None \<Rightarrow> (''%!'' @ [v] @ ''(MISSING)'' @ out, wrapped)
               | Some a \<Rightarrow> (Error a @ out, v = CHR ''w'')))
      else (case doPrintf (v # fmt) arg of (out, wrapped) \<Rightarrow> (c # out, wrapped)))"

text \<open>
  \<^verbatim>\<open>fmt.Errorf(format, err)\<close>: with no \<^verbatim>\<open>%w\<close> the result is \<^verbatim>\<open>errors.New(text)\<close>, which
  keeps the text only; with a \<^verbatim>\<open>%w\<close> it is a \<^verbatim>\<open>*fmt.wrapError\<close> that keeps the operand
  too. Either is a new allocation.
\<close>

definition fmt_Errorf :: "string \<Rightarrow> goerror \<Rightarrow> world \<Rightarrow> goerror \<times> world" where
  "fmt_Errorf format a w =
     (case doPrintf format (Some a) of
        (s, wrapped) \<Rightarrow>
          (let p = next_addr w;
               w1 = w\<lparr>next_addr := Suc p\<rparr>
           in (if wrapped then WrapError p s a else ErrorString p s, w1)))"

text \<open>
  \<^verbatim>\<open>fmt.Println(label, err)\<close>: the operands in their default format, a space between
  them, and a newline.
\<close>

definition fmt_Println :: "string \<Rightarrow> goerror \<Rightarrow> world \<Rightarrow> world" where
  "fmt_Println label err w =
     w\<lparr>trace := trace w @ [Stdout (label @ '' '' @ Error err @ [CHR 0x0A])]\<rparr>"

subsection \<open>The program\<close>

text \<open>
  A function's deferred calls run when it returns, the most recent first, after the
  result is set and before the caller has it. Their own results are dropped.
\<close>

fun run_deferred :: "(world \<Rightarrow> world) list \<Rightarrow> world \<Rightarrow> world" where
  "run_deferred [] w = w"
| "run_deferred (d # ds) w = run_deferred ds (d w)"

text \<open>
  \<^verbatim>\<open>
  func readConfig() error {
      file, err := os.Open("config.json")
      if err != nil {
          return fmt.Errorf("opening config file: %s", err)
      }
      defer file.Close()
      return nil
  }
  \<close>
  The result is \<open>None\<close> for nil. On the failure branch the function returns before the
  \<^verbatim>\<open>defer\<close> statement is reached, so nothing is deferred there.
\<close>

definition readConfig :: "world \<Rightarrow> goerror option \<times> world" where
  "readConfig w =
     (case os_Open ''config.json'' w of
        (Inl err, w1) \<Rightarrow>
          (case fmt_Errorf ''opening config file: %s'' err w1 of
             (e, w2) \<Rightarrow> (Some e, run_deferred [] w2))
      | (Inr file, w1) \<Rightarrow>
          (let deferred = [\<lambda>s. snd (file_Close file s)]
           in (None, run_deferred deferred w1)))"

text \<open>
  \<^verbatim>\<open>
  func main() {
      err := readConfig()
      if err != nil {
          fmt.Println("Error:", err)
      }
  }
  \<close>
\<close>

definition main :: "world \<Rightarrow> world" where
  "main w =
     (case readConfig w of
        (Some err, w1) \<Rightarrow> fmt_Println ''Error:'' err w1
      | (None, w1) \<Rightarrow> w1)"

text \<open>
  The same function as the notes on errors print it (section "Error Propagation with
  Context"): the verb is \<^verbatim>\<open>%w\<close>.
  \<^verbatim>\<open>
  func readConfig() error {
      file, err := os.Open("config.json")
      if err != nil {
          return fmt.Errorf("opening config file: %w", err)
      }
      defer file.Close()
      return nil
  }
  \<close>
\<close>

definition readConfig_notes :: "world \<Rightarrow> goerror option \<times> world" where
  "readConfig_notes w =
     (case os_Open ''config.json'' w of
        (Inl err, w1) \<Rightarrow>
          (case fmt_Errorf ''opening config file: %w'' err w1 of
             (e, w2) \<Rightarrow> (Some e, run_deferred [] w2))
      | (Inr file, w1) \<Rightarrow>
          (let deferred = [\<lambda>s. snd (file_Close file s)]
           in (None, run_deferred deferred w1)))"

subsection \<open>Three concrete worlds\<close>

text \<open>
  A process just started: the three standard streams are open, the poller is not
  running, the five sentinels are allocated, nothing has been called. In the first world
  no file exists. In the second \<^verbatim>\<open>config.json\<close> exists and is empty. In the third it
  exists and is empty too, but the descriptor table of the process is full (its limit
  is three), so the platform refuses every open with \<open>EMFILE\<close>.
\<close>

definition missing_world :: world where
  "missing_world =
     \<lparr>disk = (\<lambda>name. Inl ENOENT), refusal = None, open_files = [0, 1, 2],
      poller_started = False, next_addr = 5, trace = []\<rparr>"

definition empty_file_world :: world where
  "empty_file_world =
     \<lparr>disk = (\<lambda>name. if name = ''config.json'' then Inr [] else Inl ENOENT),
      refusal = None, open_files = [0, 1, 2], poller_started = False,
      next_addr = 5, trace = []\<rparr>"

definition full_table_world :: world where
  "full_table_world =
     \<lparr>disk = (\<lambda>name. if name = ''config.json'' then Inr [] else Inl ENOENT),
      refusal = Some EMFILE, open_files = [0, 1, 2], poller_started = False,
      next_addr = 5, trace = []\<rparr>"

section \<open>Properties\<close>

subsection \<open>What the formatting yields\<close>

lemma doPrintf_context_s:
  "doPrintf ''opening config file: %s'' (Some a) = (''opening config file: '' @ Error a, False)"
  by simp

lemma doPrintf_context_w:
  "doPrintf ''opening config file: %w'' (Some a) = (''opening config file: '' @ Error a, True)"
  by simp

subsection \<open>Descriptors\<close>

text \<open>The next descriptor is not open, and every smaller number is.\<close>

lemma first_free_fresh:
  "card {m \<in> set fds. n \<le> m} \<le> k \<Longrightarrow> first_free k n fds \<notin> set fds"
proof (induction k arbitrary: n)
  case 0
  then have "{m \<in> set fds. n \<le> m} = {}" by simp
  then show ?case by auto
next
  case (Suc k)
  show ?case
  proof (cases "n \<in> set fds")
    case True
    have eq: "{m \<in> set fds. Suc n \<le> m} = {m \<in> set fds. n \<le> m} - {n}" by auto
    have "n \<in> {m \<in> set fds. n \<le> m}" using True by simp
    then have "card {m \<in> set fds. Suc n \<le> m} < card {m \<in> set fds. n \<le> m}"
      unfolding eq by (intro card_Diff1_less) simp_all
    with Suc.prems have "card {m \<in> set fds. Suc n \<le> m} \<le> k" by simp
    from Suc.IH [OF this] True show ?thesis by simp
  next
    case False
    then show ?thesis by simp
  qed
qed

lemma lowest_free_fresh: "lowest_free fds \<notin> set fds"
proof -
  have "card {m \<in> set fds. 0 \<le> m} \<le> length fds"
    by (simp add: card_length)
  then show ?thesis unfolding lowest_free_def by (rule first_free_fresh)
qed

lemma first_free_lowest:
  "n \<le> m \<Longrightarrow> m < first_free k n fds \<Longrightarrow> m \<in> set fds"
proof (induction k arbitrary: n)
  case 0
  then show ?case by simp
next
  case (Suc k)
  show ?case
  proof (cases "n \<in> set fds")
    case True
    show ?thesis
    proof (cases "m = n")
      case True
      with \<open>n \<in> set fds\<close> show ?thesis by simp
    next
      case False
      with Suc.prems have "Suc n \<le> m" by simp
      moreover from Suc.prems True have "m < first_free k (Suc n) fds" by simp
      ultimately show ?thesis by (rule Suc.IH)
    qed
  next
    case False
    with Suc.prems show ?thesis by simp
  qed
qed

lemma lowest_free_lowest: "m < lowest_free fds \<Longrightarrow> m \<in> set fds"
  unfolding lowest_free_def by (rule first_free_lowest [of 0]) simp_all

lemma next_fd_fresh: "next_fd w \<notin> set (open_files w)"
  by (simp add: next_fd_def lowest_free_fresh)

lemma lowest_free_start:
  "lowest_free [0, 1, 2] = 3"
  "lowest_free [0, 1, 2, 3] = 4"
  "lowest_free [0, 1, 2, 3, 4] = 5"
  by code_simp+

text \<open>The concrete worlds, field by field.\<close>

lemma start_fields:
  "open_files missing_world = [0, 1, 2]" "open_files empty_file_world = [0, 1, 2]"
  "open_files full_table_world = [0, 1, 2]"
  "next_fd missing_world = 3" "next_fd empty_file_world = 3" "next_fd full_table_world = 3"
  "next_addr missing_world = 5" "next_addr empty_file_world = 5"
  "next_addr full_table_world = 5"
  "trace missing_world = []" "trace empty_file_world = []" "trace full_table_world = []"
  "poller_started missing_world = False" "poller_started empty_file_world = False"
  "poller_started full_table_world = False"
  by (simp_all add: next_fd_def lowest_free_start [simplified]
        missing_world_def empty_file_world_def full_table_world_def)

lemma start_counts:
  "open_count missing_world = 0" "open_count empty_file_world = 0"
  "open_count full_table_world = 0"
  "release_count missing_world = 0" "release_count empty_file_world = 0"
  "release_count full_table_world = 0"
  by (simp_all add: open_count_def release_count_def start_fields)

text \<open>What the platform answers depends on the disk and on the refusal only.\<close>

lemma files_update:
  "files (w\<lparr>trace := t\<rparr>) = files w"
  "files (w\<lparr>next_addr := a\<rparr>) = files w"
  "files (w\<lparr>open_files := fds\<rparr>) = files w"
  "files (w\<lparr>poller_started := b\<rparr>) = files w"
  by (simp_all add: files_def fun_eq_iff split: option.splits)

lemma next_fd_update:
  "next_fd (w\<lparr>trace := t\<rparr>) = next_fd w"
  "next_fd (w\<lparr>next_addr := a\<rparr>) = next_fd w"
  "next_fd (w\<lparr>poller_started := b\<rparr>) = next_fd w"
  by (simp_all add: next_fd_def)

lemma files_concrete:
  "files missing_world name = Inl ENOENT"
  "files empty_file_world ''config.json'' = Inr []"
  "files full_table_world name = Inl EMFILE"
  by (simp_all add: files_def missing_world_def empty_file_world_def full_table_world_def)

subsection \<open>The two ways through \<open>readConfig\<close>\<close>

text \<open>
  When the open fails, the call returns a new \<^verbatim>\<open>*errors.errorString\<close> and has done
  nothing but the open and two allocations (the \<^verbatim>\<open>PathError\<close> of the library, then the
  returned error).
\<close>

lemma readConfig_fail:
  "files w ''config.json'' = Inl en \<Longrightarrow>
   readConfig w =
     (Some (ErrorString (Suc (next_addr w))
        (''opening config file: open config.json: '' @ errno_text en)),
      w\<lparr>trace := trace w @ [CallOpen ''config.json''], next_addr := Suc (Suc (next_addr w))\<rparr>)"
  by (simp add: readConfig_def os_Open_def fmt_Errorf_def)

text \<open>
  When the open succeeds, the file is on the next descriptor, and the poller's two
  descriptors follow it if the poller was not running.
\<close>

lemma os_Open_ok_world:
  "files w name = Inr contents \<Longrightarrow>
   snd (os_Open name w) =
     w\<lparr>trace := trace w @ [CallOpen name],
       open_files := open_files w @ next_fd w #
         (if poller_started w then []
          else [lowest_free (open_files w @ [next_fd w]),
                lowest_free (open_files w @ [next_fd w,
                               lowest_free (open_files w @ [next_fd w])])]),
       poller_started := True\<rparr>"
  by (simp add: os_Open_def poll_serverInit_def Let_def)

text \<open>
  When the open succeeds, the call returns nil, and the deferred close has run on the
  descriptor the open handed out. The poller's descriptors stay.
\<close>

lemma readConfig_ok:
  "files w ''config.json'' = Inr contents \<Longrightarrow>
   readConfig w =
     (None,
      w\<lparr>trace := trace w @ [CallOpen ''config.json'', CallClose (next_fd w)],
        open_files := open_files w @
          (if poller_started w then []
           else [lowest_free (open_files w @ [next_fd w]),
                 lowest_free (open_files w @ [next_fd w,
                                lowest_free (open_files w @ [next_fd w])])]),
        poller_started := True\<rparr>)"
  by (simp add: readConfig_def os_Open_def poll_serverInit_def Let_def file_Close_def
        remove1_append next_fd_fresh)

lemma os_Open_Inl:
  "fst (os_Open name w) = Inl err \<longleftrightarrow>
   (\<exists>en. files w name = Inl en \<and> err = PathError (next_addr w) ''open'' name (Errno en))"
  by (auto simp: os_Open_def Let_def split: sum.splits)

lemma os_Open_Inr:
  "fst (os_Open name w) = Inr f \<longleftrightarrow>
   (\<exists>contents. files w name = Inr contents \<and> f = File (next_fd w) name)"
  by (auto simp: os_Open_def Let_def split: sum.splits)

lemma os_Open_fail_world:
  "files w name = Inl en \<Longrightarrow>
   snd (os_Open name w) = w\<lparr>trace := trace w @ [CallOpen name], next_addr := Suc (next_addr w)\<rparr>"
  by (simp add: os_Open_def)

text \<open>
  The caller, \<open>main\<close>, is where a failure is printed: one line on standard output,
  after the call has returned.
\<close>

lemma main_prints_failure:
  "files w ''config.json'' = Inl en \<Longrightarrow>
   trace (main w) = trace w @ [CallOpen ''config.json'',
      Stdout (''Error: opening config file: open config.json: '' @ errno_text en @ [CHR 0x0A])]"
  by (simp add: main_def readConfig_fail fmt_Println_def)

subsection \<open>The cause of a failure\<close>

text \<open>
  The function as the notes print it, with \<^verbatim>\<open>%w\<close>, keeps the error of the open as the
  cause of what it returns: where \<^verbatim>\<open>config.json\<close> does not exist, \<^verbatim>\<open>errors.Is\<close> finds both
  \<^verbatim>\<open>os.ErrNotExist\<close> and \<^verbatim>\<open>syscall.ENOENT\<close> through the wrapper.
\<close>

lemma readConfig_notes_keeps_cause:
  "fst (readConfig_notes missing_world) =
     Some (WrapError 6 ''opening config file: open config.json: no such file or directory''
             (PathError 5 ''open'' ''config.json'' (Errno ENOENT)))
   \<and> errors_Is (WrapError 6 ''opening config file: open config.json: no such file or directory''
                  (PathError 5 ''open'' ''config.json'' (Errno ENOENT))) ErrNotExist
   \<and> errors_Is (WrapError 6 ''opening config file: open config.json: no such file or directory''
                  (PathError 5 ''open'' ''config.json'' (Errno ENOENT))) (Errno ENOENT)"
  by (simp add: readConfig_notes_def os_Open_def fmt_Errorf_def files_def missing_world_def
        Errno_Is_def ErrNotExist_def ErrExist_def ErrPermission_def)

text \<open>
  Claim C1: where the open fails because the file is not found, the error that the
  loader returns keeps the error of the open as a cause that can be unwrapped, so that
  an \<^verbatim>\<open>errors.Is\<close> check against the platform's not-found error succeeds through it.

  The program \<open>readConfig\<close> formats with \<^verbatim>\<open>%s\<close>, and does not: in the world where
  \<^verbatim>\<open>config.json\<close> does not exist it returns an \<^verbatim>\<open>*errors.errorString\<close> with the right
  text, which has nothing to unwrap, and \<^verbatim>\<open>errors.Is\<close> answers false for
  \<^verbatim>\<open>os.ErrNotExist\<close> and for \<^verbatim>\<open>syscall.ENOENT\<close> alike.
\<close>

theorem readConfig_flattens_cause:
  "fst (readConfig missing_world) =
     Some (ErrorString 6 ''opening config file: open config.json: no such file or directory'')
   \<and> Unwrap (ErrorString 6 ''opening config file: open config.json: no such file or directory'')
       = None
   \<and> errors_Is (ErrorString 6 ''opening config file: open config.json: no such file or directory'')
        ErrNotExist = False
   \<and> errors_Is (ErrorString 6 ''opening config file: open config.json: no such file or directory'')
        (Errno ENOENT) = False"
  by (simp add: readConfig_fail [OF files_concrete(1)] start_fields ErrNotExist_def)

subsection \<open>The text of a failure\<close>

text \<open>
  Claim C3: on every failing call the text of the returned error contains the context
  \<^verbatim>\<open>opening config file\<close> and the whole text of the error of the open; it is the context,
  a colon and a space, and then that text. Where the file does not exist it is
  \<^verbatim>\<open>opening config file: open config.json: no such file or directory\<close>.
\<close>

theorem readConfig_failure_text:
  assumes "fst (os_Open ''config.json'' w) = Inl err"
  shows "\<exists>e. fst (readConfig w) = Some e
            \<and> Error e = ''opening config file: '' @ Error err
            \<and> sublist ''opening config file'' (Error e)
            \<and> sublist (Error err) (Error e)
            \<and> (files w ''config.json'' = Inl ENOENT \<longrightarrow>
                 Error e = ''opening config file: open config.json: no such file or directory'')"
proof -
  from assms obtain en where en: "files w ''config.json'' = Inl en"
    and err: "err = PathError (next_addr w) ''open'' ''config.json'' (Errno en)"
    by (auto simp: os_Open_Inl)
  let ?e = "ErrorString (Suc (next_addr w)) (''opening config file: open config.json: '' @ errno_text en)"
  have res: "fst (readConfig w) = Some ?e"
    by (simp add: readConfig_fail [OF en])
  have msg: "Error ?e = ''opening config file: '' @ Error err"
    by (simp add: err)
  have ctx: "sublist ''opening config file'' (Error ?e)"
  proof -
    have "Error ?e = [] @ ''opening config file'' @ ('': open config.json: '' @ errno_text en)"
      by simp
    then show ?thesis unfolding sublist_def by blast
  qed
  have cause: "sublist (Error err) (Error ?e)"
  proof -
    have "Error ?e = ''opening config file: '' @ Error err @ []"
      using msg by simp
    then show ?thesis unfolding sublist_def by blast
  qed
  have nf: "files w ''config.json'' = Inl ENOENT \<longrightarrow>
      Error ?e = ''opening config file: open config.json: no such file or directory''"
    using en by auto
  from res msg ctx cause nf show ?thesis by blast
qed

theorem readConfig_failure_text_witness:
  "fst (os_Open ''config.json'' missing_world)
     = Inl (PathError 5 ''open'' ''config.json'' (Errno ENOENT))
   \<and> (\<exists>e. fst (readConfig missing_world) = Some e
         \<and> Error e = ''opening config file: open config.json: no such file or directory'')"
proof -
  have h: "fst (os_Open ''config.json'' missing_world)
             = Inl (PathError 5 ''open'' ''config.json'' (Errno ENOENT))"
    by (simp add: os_Open_def files_concrete files_update start_fields)
  have f: "files missing_world ''config.json'' = Inl ENOENT"
    by (rule files_concrete)
  from readConfig_failure_text [OF h] f h show ?thesis by auto
qed

subsection \<open>Releasing the file\<close>

text \<open>
  Claim C2, as stated: after any call, successful or failed, the release operation has
  been invoked exactly once. It fails on the world where \<^verbatim>\<open>config.json\<close> does not exist:
  the call fails, and no close has been called.
\<close>

theorem release_once_always_counterexample:
  "fst (readConfig missing_world) \<noteq> None
   \<and> release_count missing_world = 0
   \<and> release_count (snd (readConfig missing_world)) \<noteq> 1"
  by (simp add: readConfig_fail [OF files_concrete(1)] start_fields release_count_def)

text \<open>
  Claim C2, amended: a call invokes the release operation exactly once when it returns
  nil (the open succeeded), and not at all when it returns an error (the open failed, and
  there is no file to release).
\<close>

theorem release_once_per_opened_file:
  "release_count (snd (readConfig w)) =
     release_count w + (if fst (readConfig w) = None then 1 else 0)"
proof (cases "files w ''config.json''")
  case (Inl en)
  then show ?thesis by (simp add: readConfig_fail release_count_def)
next
  case (Inr contents)
  then show ?thesis by (simp add: readConfig_ok release_count_def)
qed

theorem release_once_per_opened_file_witness:
  "release_count (snd (readConfig empty_file_world)) = 1
   \<and> release_count (snd (readConfig missing_world)) = 0"
proof -
  have a: "fst (readConfig empty_file_world) = None"
    by (simp add: readConfig_ok [OF files_concrete(2)])
  have b: "fst (readConfig missing_world) \<noteq> None"
    by (simp add: readConfig_fail [OF files_concrete(1)] start_fields)
  have c: "release_count empty_file_world = 0" "release_count missing_world = 0"
    by (simp_all add: start_counts)
  from release_once_per_opened_file [of empty_file_world]
    release_once_per_opened_file [of missing_world] a b c
  show ?thesis by simp
qed

text \<open>
  Claim C4: whenever the open succeeds, the file is closed before the caller has the
  result, and the close comes after everything else done with the file. In the world
  that is returned together with the result, the events of the call are the open and then
  the close of the descriptor the open handed out, and the close is the last event. That
  descriptor was open when the open returned and is not open when the call returns; the
  call has closed it and no other.
\<close>

theorem opened_file_closed_before_return:
  assumes "fst (os_Open ''config.json'' w) = Inr (File fd name)"
  shows "fst (readConfig w) = None
       \<and> trace (snd (readConfig w)) = trace w @ [CallOpen ''config.json'', CallClose fd]
       \<and> last (trace (snd (readConfig w))) = CallClose fd
       \<and> fd \<in> set (open_files (snd (os_Open ''config.json'' w)))
       \<and> fd \<notin> set (open_files (snd (readConfig w)))
       \<and> set (open_files (snd (readConfig w)))
           = set (open_files (snd (os_Open ''config.json'' w))) - {fd}"
proof -
  from assms obtain contents where c: "files w ''config.json'' = Inr contents"
    and fd: "fd = next_fd w"
    by (auto simp: os_Open_Inr)
  have fresh: "fd \<notin> set (open_files w)"
    using fd by (simp add: next_fd_fresh)
  have ep: "lowest_free (open_files w @ [fd]) \<noteq> fd"
    using lowest_free_fresh [of "open_files w @ [fd]"] by auto
  have ef: "lowest_free (open_files w @ [fd, lowest_free (open_files w @ [fd])]) \<noteq> fd"
    using lowest_free_fresh [of "open_files w @ [fd, lowest_free (open_files w @ [fd])]"]
    by auto
  have r: "fst (readConfig w) = None"
    by (simp add: readConfig_ok [OF c])
  have tr: "trace (snd (readConfig w)) = trace w @ [CallOpen ''config.json'', CallClose fd]"
    using fd by (simp add: readConfig_ok [OF c])
  have la: "last (trace (snd (readConfig w))) = CallClose fd"
    by (simp add: tr)
  have opened: "fd \<in> set (open_files (snd (os_Open ''config.json'' w)))"
    using fd by (simp add: os_Open_ok_world [OF c])
  have closed: "fd \<notin> set (open_files (snd (readConfig w)))"
    using fresh ep ef fd by (simp add: readConfig_ok [OF c])
  have only: "set (open_files (snd (readConfig w)))
                = set (open_files (snd (os_Open ''config.json'' w))) - {fd}"
    using fresh ep ef fd by (auto simp: readConfig_ok [OF c] os_Open_ok_world [OF c])
  from r tr la opened closed only show ?thesis by blast
qed

theorem opened_file_closed_before_return_witness:
  "fst (os_Open ''config.json'' empty_file_world) = Inr (File 3 ''config.json'')
   \<and> trace (snd (readConfig empty_file_world)) = [CallOpen ''config.json'', CallClose 3]
   \<and> 3 \<in> set (open_files (snd (os_Open ''config.json'' empty_file_world)))
   \<and> 3 \<notin> set (open_files (snd (readConfig empty_file_world)))"
proof -
  have h: "fst (os_Open ''config.json'' empty_file_world) = Inr (File 3 ''config.json'')"
    by (simp add: os_Open_def files_concrete start_fields)
  have z: "trace empty_file_world = []"
    by (simp add: start_fields)
  from opened_file_closed_before_return [OF h] h z show ?thesis
    by simp
qed

text \<open>
  Claim C5, as stated: for every existing, readable file, empty or not, the call returns
  no error and the release counter is 1. It fails where \<^verbatim>\<open>config.json\<close> exists, is empty
  and may be read, but the descriptor table of the process is full: the open is refused
  with \<open>EMFILE\<close>, the call returns an error, and nothing is released.
\<close>

theorem existing_file_always_loads_counterexample:
  "disk full_table_world ''config.json'' = Inr []
   \<and> fst (readConfig full_table_world) =
       Some (ErrorString 6 ''opening config file: open config.json: too many open files'')
   \<and> fst (readConfig full_table_world) \<noteq> None
   \<and> release_count (snd (readConfig full_table_world)) \<noteq> 1"
proof -
  have d: "disk full_table_world ''config.json'' = Inr []"
    by (simp add: full_table_world_def)
  have r: "fst (readConfig full_table_world) =
       Some (ErrorString 6 ''opening config file: open config.json: too many open files'')"
    by (simp add: readConfig_fail [OF files_concrete(3)] start_fields)
  have c: "release_count (snd (readConfig full_table_world)) \<noteq> 1"
    by (simp add: readConfig_fail [OF files_concrete(3)] start_fields release_count_def)
  from d r c show ?thesis by simp
qed

text \<open>
  Claim C5, amended: where \<^verbatim>\<open>config.json\<close> exists and may be read, whatever it contains
  (nothing, for one), and the platform does not refuse the open for a reason of its own
  (a full descriptor table), the call returns nil; it has opened the file once and then
  closed, once, the descriptor that this open returned; and that descriptor is not open
  when the call returns.
\<close>

theorem existing_file_loads_and_is_released:
  assumes "disk w ''config.json'' = Inr contents" and "refusal w = None"
  shows "fst (readConfig w) = None
       \<and> (\<exists>fd. fst (os_Open ''config.json'' w) = Inr (File fd ''config.json'')
              \<and> trace (snd (readConfig w))
                  = trace w @ [CallOpen ''config.json'', CallClose fd]
              \<and> fd \<in> set (open_files (snd (os_Open ''config.json'' w)))
              \<and> fd \<notin> set (open_files (snd (readConfig w))))
       \<and> open_count (snd (readConfig w)) = open_count w + 1
       \<and> release_count (snd (readConfig w)) = release_count w + 1"
proof -
  from assms have c: "files w ''config.json'' = Inr contents"
    by (simp add: files_def)
  let ?fd = "next_fd w"
  have fresh: "?fd \<notin> set (open_files w)"
    by (simp add: next_fd_fresh)
  have ep: "lowest_free (open_files w @ [?fd]) \<noteq> ?fd"
    using lowest_free_fresh [of "open_files w @ [?fd]"] by auto
  have ef: "lowest_free (open_files w @ [?fd, lowest_free (open_files w @ [?fd])]) \<noteq> ?fd"
    using lowest_free_fresh [of "open_files w @ [?fd, lowest_free (open_files w @ [?fd])]"]
    by auto
  have r: "fst (readConfig w) = None"
    by (simp add: readConfig_ok [OF c])
  have o: "fst (os_Open ''config.json'' w) = Inr (File ?fd ''config.json'')"
    using c by (simp add: os_Open_Inr)
  have tr: "trace (snd (readConfig w)) = trace w @ [CallOpen ''config.json'', CallClose ?fd]"
    by (simp add: readConfig_ok [OF c])
  have opened: "?fd \<in> set (open_files (snd (os_Open ''config.json'' w)))"
    by (simp add: os_Open_ok_world [OF c])
  have closed: "?fd \<notin> set (open_files (snd (readConfig w)))"
    using fresh ep ef by (simp add: readConfig_ok [OF c])
  have oc: "open_count (snd (readConfig w)) = open_count w + 1"
    by (simp add: tr open_count_def)
  have rc: "release_count (snd (readConfig w)) = release_count w + 1"
    by (simp add: tr release_count_def)
  from r o tr opened closed oc rc show ?thesis by blast
qed

theorem existing_file_loads_and_is_released_witness:
  "disk empty_file_world ''config.json'' = Inr [] \<and> refusal empty_file_world = None
   \<and> fst (readConfig empty_file_world) = None
   \<and> trace (snd (readConfig empty_file_world)) = [CallOpen ''config.json'', CallClose 3]
   \<and> 3 \<notin> set (open_files (snd (readConfig empty_file_world)))
   \<and> open_count (snd (readConfig empty_file_world)) = 1
   \<and> release_count (snd (readConfig empty_file_world)) = 1"
proof -
  have d: "disk empty_file_world ''config.json'' = Inr []"
    and n: "refusal empty_file_world = None"
    by (simp_all add: empty_file_world_def)
  have o: "fst (os_Open ''config.json'' empty_file_world) = Inr (File 3 ''config.json'')"
    by (simp add: os_Open_def files_concrete start_fields)
  have z: "trace empty_file_world = []" "open_count empty_file_world = 0"
    "release_count empty_file_world = 0"
    by (simp_all add: start_fields start_counts)
  from existing_file_loads_and_is_released [OF d n] d n o z show ?thesis
    by auto
qed

text \<open>
  Claim C9: on a failing call the function returns before the close is deferred, so the
  release operation is invoked zero times: the count of closes is what it was, and none
  of the events of the call is a close.
\<close>

theorem failed_open_never_closes:
  assumes "fst (os_Open ''config.json'' w) = Inl err"
  shows "fst (readConfig w) \<noteq> None
       \<and> release_count (snd (readConfig w)) = release_count w
       \<and> filter is_close (drop (length (trace w)) (trace (snd (readConfig w)))) = []"
proof -
  from assms obtain en where en: "files w ''config.json'' = Inl en"
    by (auto simp: os_Open_Inl)
  show ?thesis
    by (simp add: readConfig_fail [OF en] release_count_def)
qed

theorem failed_open_never_closes_witness:
  "fst (os_Open ''config.json'' missing_world)
     = Inl (PathError 5 ''open'' ''config.json'' (Errno ENOENT))
   \<and> fst (readConfig missing_world) \<noteq> None
   \<and> release_count (snd (readConfig missing_world)) = 0"
proof -
  have h: "fst (os_Open ''config.json'' missing_world)
             = Inl (PathError 5 ''open'' ''config.json'' (Errno ENOENT))"
    by (simp add: os_Open_def files_concrete files_update start_fields)
  have z: "release_count missing_world = 0"
    by (simp add: start_counts)
  from failed_open_never_closes [OF h] h z show ?thesis by simp
qed

subsection \<open>What a call does to the world\<close>

text \<open>
  Claim C6: a call makes exactly one open attempt and at most one close, the close of
  what that open returned. Nothing is cached (a second call opens again), and the file
  system is not touched. After a successful call the descriptor that was opened is
  closed again. A failing call leaves nothing behind: its only event is the open, the
  open files are those open before it, no descriptor was used up, and the poller is as
  it was.
\<close>

theorem one_open_at_most_one_close:
  "open_count (snd (readConfig w)) = open_count w + 1
   \<and> open_count (snd (readConfig (snd (readConfig w)))) = open_count w + 2
   \<and> release_count (snd (readConfig w)) \<le> release_count w + 1
   \<and> (trace (snd (readConfig w)) = trace w @ [CallOpen ''config.json'']
      \<or> trace (snd (readConfig w)) = trace w @ [CallOpen ''config.json'', CallClose (next_fd w)])
   \<and> files (snd (readConfig w)) = files w
   \<and> disk (snd (readConfig w)) = disk w
   \<and> next_fd w \<notin> set (open_files (snd (readConfig w)))
   \<and> (fst (readConfig w) \<noteq> None \<longrightarrow>
        open_files (snd (readConfig w)) = open_files w
        \<and> next_fd (snd (readConfig w)) = next_fd w
        \<and> poller_started (snd (readConfig w)) = poller_started w
        \<and> trace (snd (readConfig w)) = trace w @ [CallOpen ''config.json''])"
proof -
  have one: "open_count (snd (readConfig v)) = open_count v + 1" for v
  proof (cases "files v ''config.json''")
    case (Inl en)
    then show ?thesis by (simp add: readConfig_fail open_count_def)
  next
    case (Inr contents)
    then show ?thesis by (simp add: readConfig_ok open_count_def)
  qed
  have two: "open_count (snd (readConfig (snd (readConfig w)))) = open_count w + 2"
    by (simp add: one)
  have rest: "release_count (snd (readConfig w)) \<le> release_count w + 1
   \<and> (trace (snd (readConfig w)) = trace w @ [CallOpen ''config.json'']
      \<or> trace (snd (readConfig w)) = trace w @ [CallOpen ''config.json'', CallClose (next_fd w)])
   \<and> files (snd (readConfig w)) = files w
   \<and> disk (snd (readConfig w)) = disk w
   \<and> next_fd w \<notin> set (open_files (snd (readConfig w)))
   \<and> (fst (readConfig w) \<noteq> None \<longrightarrow>
        open_files (snd (readConfig w)) = open_files w
        \<and> next_fd (snd (readConfig w)) = next_fd w
        \<and> poller_started (snd (readConfig w)) = poller_started w
        \<and> trace (snd (readConfig w)) = trace w @ [CallOpen ''config.json''])"
  proof (cases "files w ''config.json''")
    case (Inl en)
    then show ?thesis
      by (simp add: readConfig_fail release_count_def files_update next_fd_update next_fd_fresh)
  next
    case (Inr contents)
    have ep: "lowest_free (open_files w @ [next_fd w]) \<noteq> next_fd w"
      using lowest_free_fresh [of "open_files w @ [next_fd w]"] by auto
    have ef: "lowest_free (open_files w @ [next_fd w, lowest_free (open_files w @ [next_fd w])])
                 \<noteq> next_fd w"
      using lowest_free_fresh
        [of "open_files w @ [next_fd w, lowest_free (open_files w @ [next_fd w])]"]
      by auto
    from ep ef show ?thesis
      by (simp add: readConfig_ok [OF Inr] release_count_def files_update next_fd_fresh)
  qed
  from one [of w] two rest show ?thesis by blast
qed

theorem one_open_at_most_one_close_witness:
  "fst (readConfig missing_world) \<noteq> None
   \<and> open_count (snd (readConfig missing_world)) = 1
   \<and> release_count (snd (readConfig missing_world)) = 0
   \<and> next_fd (snd (readConfig missing_world)) = 3
   \<and> open_files (snd (readConfig missing_world)) = [0, 1, 2]
   \<and> trace (snd (readConfig missing_world)) = [CallOpen ''config.json'']"
proof -
  have h: "fst (readConfig missing_world) \<noteq> None"
    by (simp add: readConfig_fail [OF files_concrete(1)])
  have z: "open_count missing_world = 0" "trace missing_world = []"
    "next_fd missing_world = 3" "open_files missing_world = [0, 1, 2]"
    by (simp_all add: start_fields start_counts)
  from one_open_at_most_one_close [of missing_world] h z show ?thesis
    by (simp add: release_count_def)
qed

text \<open>
  Claim C7: when the open fails the loader does not recover. It returns at once the
  error made of the context and the text of the open's error: the world it returns is
  the world the open left, but for the allocation of that error. So there is no second
  open, nothing is printed, and the file system, the open files and the next descriptor
  are as before the call.
\<close>

theorem open_failure_returned_at_once:
  assumes "os_Open ''config.json'' w = (Inl err, w1)"
  shows "readConfig w =
           (Some (ErrorString (next_addr w1) (''opening config file: '' @ Error err)),
            w1\<lparr>next_addr := Suc (next_addr w1)\<rparr>)
       \<and> trace (snd (readConfig w)) = trace w @ [CallOpen ''config.json'']
       \<and> filter is_print (trace (snd (readConfig w))) = filter is_print (trace w)
       \<and> open_count (snd (readConfig w)) = open_count w + 1
       \<and> files (snd (readConfig w)) = files w
       \<and> open_files (snd (readConfig w)) = open_files w
       \<and> next_fd (snd (readConfig w)) = next_fd w"
proof -
  from assms have "fst (os_Open ''config.json'' w) = Inl err" by simp
  then obtain en where en: "files w ''config.json'' = Inl en"
    and err: "err = PathError (next_addr w) ''open'' ''config.json'' (Errno en)"
    by (auto simp: os_Open_Inl)
  from assms have "w1 = snd (os_Open ''config.json'' w)" by simp
  then have w1: "w1 = w\<lparr>trace := trace w @ [CallOpen ''config.json''],
                        next_addr := Suc (next_addr w)\<rparr>"
    by (simp add: os_Open_fail_world [OF en])
  show ?thesis
    by (simp add: readConfig_fail [OF en] err w1 open_count_def files_update next_fd_update)
qed

theorem open_failure_returned_at_once_witness:
  "os_Open ''config.json'' missing_world =
     (Inl (PathError 5 ''open'' ''config.json'' (Errno ENOENT)),
      missing_world\<lparr>trace := [CallOpen ''config.json''], next_addr := 6\<rparr>)
   \<and> fst (readConfig missing_world) =
       Some (ErrorString 6 ''opening config file: open config.json: no such file or directory'')
   \<and> trace (snd (readConfig missing_world)) = [CallOpen ''config.json'']"
proof -
  have h: "os_Open ''config.json'' missing_world =
     (Inl (PathError 5 ''open'' ''config.json'' (Errno ENOENT)),
      missing_world\<lparr>trace := [CallOpen ''config.json''], next_addr := 6\<rparr>)"
    by (simp add: os_Open_def files_concrete files_update start_fields)
  from open_failure_returned_at_once [OF h] h show ?thesis
    by (simp add: start_fields)
qed

text \<open>
  Claim C8: the loader validates nothing and has no error of its own. Whatever the file
  system, the first thing a call does is the open; and every error a call returns is
  what \<^verbatim>\<open>fmt.Errorf\<close> makes of an error that the open returned, its text the context
  followed by the text of that error.
\<close>

theorem every_failure_comes_from_open:
  "take (Suc (length (trace w))) (trace (snd (readConfig w))) = trace w @ [CallOpen ''config.json'']
   \<and> (\<forall>e. fst (readConfig w) = Some e \<longrightarrow>
        (\<exists>err w1. os_Open ''config.json'' w = (Inl err, w1)
            \<and> e = fst (fmt_Errorf ''opening config file: %s'' err w1)
            \<and> Error e = ''opening config file: '' @ Error err))"
proof (cases "files w ''config.json''")
  case (Inl en)
  let ?err = "PathError (next_addr w) ''open'' ''config.json'' (Errno en)"
  let ?w1 = "w\<lparr>trace := trace w @ [CallOpen ''config.json''], next_addr := Suc (next_addr w)\<rparr>"
  let ?e = "ErrorString (Suc (next_addr w)) (''opening config file: open config.json: '' @ errno_text en)"
  have o: "os_Open ''config.json'' w = (Inl ?err, ?w1)"
    using Inl by (simp add: os_Open_def)
  have r: "fst (readConfig w) = Some ?e"
    by (simp add: readConfig_fail [OF Inl])
  have f: "?e = fst (fmt_Errorf ''opening config file: %s'' ?err ?w1)"
    by (simp add: fmt_Errorf_def)
  have m: "Error ?e = ''opening config file: '' @ Error ?err"
    by simp
  have first: "take (Suc (length (trace w))) (trace (snd (readConfig w)))
                 = trace w @ [CallOpen ''config.json'']"
    by (simp add: readConfig_fail [OF Inl])
  from o f m have "\<exists>err w1. os_Open ''config.json'' w = (Inl err, w1)
            \<and> ?e = fst (fmt_Errorf ''opening config file: %s'' err w1)
            \<and> Error ?e = ''opening config file: '' @ Error err"
    by blast
  with r first show ?thesis by simp
next
  case (Inr contents)
  then show ?thesis by (simp add: readConfig_ok)
qed

theorem every_failure_comes_from_open_witness:
  "fst (readConfig missing_world) =
     Some (ErrorString 6 ''opening config file: open config.json: no such file or directory'')
   \<and> (\<exists>err w1. os_Open ''config.json'' missing_world = (Inl err, w1)
         \<and> ''opening config file: open config.json: no such file or directory''
             = ''opening config file: '' @ Error err)"
proof -
  have r: "fst (readConfig missing_world) =
     Some (ErrorString 6 ''opening config file: open config.json: no such file or directory'')"
    by (simp add: readConfig_fail [OF files_concrete(1)] start_fields)
  from every_failure_comes_from_open [of missing_world] have
    "\<forall>e. fst (readConfig missing_world) = Some e \<longrightarrow>
        (\<exists>err w1. os_Open ''config.json'' missing_world = (Inl err, w1)
            \<and> e = fst (fmt_Errorf ''opening config file: %s'' err w1)
            \<and> Error e = ''opening config file: '' @ Error err)"
    by (rule conjunct2)
  with r have "\<exists>err w1. os_Open ''config.json'' missing_world = (Inl err, w1)
      \<and> Error (ErrorString 6 ''opening config file: open config.json: no such file or directory'')
          = ''opening config file: '' @ Error err"
    by blast
  with r show ?thesis by simp
qed

subsection \<open>Determinism\<close>

text \<open>
  Claim C10: the result of a call is a function of the result of the open. Two calls
  whose opens return the same return the same: nil when the open succeeds, and otherwise
  an error whose text is \<^verbatim>\<open>opening config file: \<close> followed by the text of the open's
  error.
\<close>

theorem result_determined_by_open:
  assumes "fst (os_Open ''config.json'' w) = fst (os_Open ''config.json'' w')"
  shows "fst (readConfig w) = fst (readConfig w')
       \<and> (case fst (os_Open ''config.json'' w) of
            Inr f \<Rightarrow> fst (readConfig w) = None
          | Inl err \<Rightarrow> (\<exists>e. fst (readConfig w) = Some e
                          \<and> Error e = ''opening config file: '' @ Error err))"
proof (cases "files w ''config.json''")
  case (Inl en)
  then have o: "fst (os_Open ''config.json'' w)
                  = Inl (PathError (next_addr w) ''open'' ''config.json'' (Errno en))"
    by (simp add: os_Open_Inl)
  with assms have "fst (os_Open ''config.json'' w')
                     = Inl (PathError (next_addr w) ''open'' ''config.json'' (Errno en))"
    by simp
  then have en': "files w' ''config.json'' = Inl en" and a: "next_addr w' = next_addr w"
    by (auto simp: os_Open_Inl)
  show ?thesis
    by (simp add: o readConfig_fail [OF Inl] readConfig_fail [OF en'] a)
next
  case (Inr contents)
  then have o: "fst (os_Open ''config.json'' w) = Inr (File (next_fd w) ''config.json'')"
    by (simp add: os_Open_Inr)
  with assms have "fst (os_Open ''config.json'' w') = Inr (File (next_fd w) ''config.json'')"
    by simp
  then obtain c' where c': "files w' ''config.json'' = Inr c'"
    by (auto simp: os_Open_Inr)
  show ?thesis
    by (simp add: o readConfig_ok [OF Inr] readConfig_ok [OF c'])
qed

theorem result_determined_by_open_witness:
  "fst (os_Open ''config.json'' missing_world) =
     fst (os_Open ''config.json'' (missing_world\<lparr>open_files := [], trace := [Stdout ''started'']\<rparr>))
   \<and> fst (readConfig missing_world) =
       fst (readConfig (missing_world\<lparr>open_files := [], trace := [Stdout ''started'']\<rparr>))
   \<and> (\<exists>e. fst (readConfig missing_world) = Some e
          \<and> Error e = ''opening config file: open config.json: no such file or directory'')"
proof -
  have h: "fst (os_Open ''config.json'' missing_world) =
     fst (os_Open ''config.json'' (missing_world\<lparr>open_files := [], trace := [Stdout ''started'']\<rparr>))"
    by (simp add: os_Open_def files_concrete files_update start_fields)
  have o: "fst (os_Open ''config.json'' missing_world)
             = Inl (PathError 5 ''open'' ''config.json'' (Errno ENOENT))"
    by (simp add: os_Open_def files_concrete files_update start_fields)
  from result_determined_by_open [OF h] have same:
    "fst (readConfig missing_world) =
       fst (readConfig (missing_world\<lparr>open_files := [], trace := [Stdout ''started'']\<rparr>))"
    by (rule conjunct1)
  from result_determined_by_open [OF h] have
    "case fst (os_Open ''config.json'' missing_world) of
       Inr f \<Rightarrow> fst (readConfig missing_world) = None
     | Inl err \<Rightarrow> (\<exists>e. fst (readConfig missing_world) = Some e
                     \<and> Error e = ''opening config file: '' @ Error err)"
    by (rule conjunct2)
  then have msg: "\<exists>e. fst (readConfig missing_world) = Some e
      \<and> Error e = ''opening config file: open config.json: no such file or directory''"
    by (simp add: o)
  from h same msg show ?thesis by blast
qed

end
